theory Spec2Isabelle
  imports Main "HOL-Library.AList" "HOL-Library.Multiset"
begin

section \<open>Text: the methods of Python's str that app.py calls\<close>

text \<open>
  Text is a list of characters; a character stands for a code point below 256.
  \<open>py_isspace\<close> is \<^verbatim>\<open>str.isspace\<close> on those code points: tab, line feed, vertical tab,
  form feed, carriage return, the four separators 28 to 31, space, NEL (133) and the
  no-break space (160). \<^verbatim>\<open>str.strip()\<close> removes exactly these from both ends.
\<close>

definition py_isspace :: "char \<Rightarrow> bool" where
  "py_isspace c \<longleftrightarrow>
     of_char c \<in> {9, 10, 11, 12, 13, 28, 29, 30, 31, 32, 133, 160 :: nat}"

definition str_lstrip :: "string \<Rightarrow> string" where
  "str_lstrip s = dropWhile py_isspace s"

definition str_rstrip :: "string \<Rightarrow> string" where
  "str_rstrip s = rev (dropWhile py_isspace (rev s))"

definition str_strip :: "string \<Rightarrow> string" where
  "str_strip s = str_rstrip (str_lstrip s)"

definition str_startswith :: "string \<Rightarrow> string \<Rightarrow> bool" where
  "str_startswith s p \<longleftrightarrow> take (length p) s = p"

definition str_endswith :: "string \<Rightarrow> string \<Rightarrow> bool" where
  "str_endswith s p \<longleftrightarrow> length p \<le> length s \<and> drop (length s - length p) s = p"

text \<open>\<^verbatim>\<open>sep.join(parts)\<close> and \<^verbatim>\<open>s.split(sep)\<close> for a one-character separator.\<close>

fun str_join :: "string \<Rightarrow> string list \<Rightarrow> string" where
  "str_join sep [] = []"
| "str_join sep [x] = x"
| "str_join sep (x # y # ys) = x @ sep @ str_join sep (y # ys)"

fun str_split :: "char \<Rightarrow> string \<Rightarrow> string list" where
  "str_split sep [] = [[]]"
| "str_split sep (c # cs) =
     (if c = sep then [] # str_split sep cs
      else (case str_split sep cs of
              [] \<Rightarrow> [[c]]
            | p # ps \<Rightarrow> (c # p) # ps))"

text \<open>\<^verbatim>\<open>os.path.join(a, b)\<close> of posixpath: an absolute \<open>b\<close> replaces \<open>a\<close>.\<close>

definition os_path_join :: "string \<Rightarrow> string \<Rightarrow> string" where
  "os_path_join a b =
     (if str_startswith b ''/'' then b
      else if a = [] \<or> str_endswith a ''/'' then a @ b
      else a @ ''/'' @ b)"

section \<open>Values: what json.loads returns and the store reads\<close>

text \<open>
  The Python objects a JSON text decodes to. \<open>JNull\<close> is \<^verbatim>\<open>None\<close>. A float is kept as
  the literal that denotes it (no claim computes with one). A dict is an association
  list in insertion order, looked up with \<open>map_of\<close>.
\<close>

datatype json =
    JNull
  | JBool bool
  | JInt int
  | JFloat string
  | JString string
  | JArray "json list"
  | JObject "(string \<times> json) list"

datatype py_error =
    AttributeError
  | TypeError
  | JSONDecodeError
  | OSError
  | DatabaseError
  | DetachedInstanceError

text \<open>
  \<^verbatim>\<open>x.get(key)\<close> and \<^verbatim>\<open>x.get(key, default)\<close>: only a dict has the method; on any other
  object the attribute lookup raises.
\<close>

fun dict_get_default :: "json \<Rightarrow> string \<Rightarrow> json \<Rightarrow> py_error + json" where
  "dict_get_default (JObject kvs) k d =
     Inr (case map_of kvs k of None \<Rightarrow> d | Some v \<Rightarrow> v)"
| "dict_get_default _ k d = Inl AttributeError"

definition dict_get :: "json \<Rightarrow> string \<Rightarrow> py_error + json" where
  "dict_get x k = dict_get_default x k JNull"

text \<open>
  \<^verbatim>\<open>for item in x\<close>: a list yields its elements, a dict its keys, a str its
  characters; nothing else is iterable.
\<close>

fun py_iter :: "json \<Rightarrow> py_error + json list" where
  "py_iter (JArray xs) = Inr xs"
| "py_iter (JObject kvs) = Inr (map (\<lambda>kv. JString (fst kv)) kvs)"
| "py_iter (JString s) = Inr (map (\<lambda>c. JString [c]) s)"
| "py_iter _ = Inl TypeError"

section \<open>A reader for JSON texts\<close>

text \<open>
  \<^verbatim>\<open>json.loads\<close> belongs to Python's standard library, not to the repository, so the
  functions below that call it take the reader as a parameter \<open>loads\<close>. For closed
  examples the parameter is instantiated with \<open>json_loads\<close>, a recursive-descent reader
  that follows the json module's scanner: whitespace is space, tab, line feed and
  carriage return; a number is read by the module's pattern (an integer literal decodes
  to an int, one with a fraction or an exponent to a float); a string stops at the
  closing quote, rejects raw control characters and decodes the escapes; the names
  null, true, false, NaN, Infinity and -Infinity are literals; nothing but whitespace
  may follow the value. It is narrower than the module in two places: a \<^verbatim>\<open>\u\<close> escape
  of a code point from 256 on is reported as an error (the text type has no such
  character), and the recursion is bounded by fuel taken from the text's length instead
  of the interpreter's recursion limit.
\<close>

definition json_ws :: "char \<Rightarrow> bool" where
  "json_ws c \<longleftrightarrow> c = CHR '' '' \<or> c = CHR 0x09 \<or> c = CHR 0x0A \<or> c = CHR 0x0D"

definition skip_ws :: "string \<Rightarrow> string" where
  "skip_ws s = dropWhile json_ws s"

definition is_digit :: "char \<Rightarrow> bool" where
  "is_digit c \<longleftrightarrow> 48 \<le> (of_char c :: nat) \<and> (of_char c :: nat) \<le> 57"

definition digit_val :: "char \<Rightarrow> nat" where
  "digit_val c = of_char c - 48"

definition nat_of_digits :: "string \<Rightarrow> nat" where
  "nat_of_digits ds = foldl (\<lambda>n c. 10 * n + digit_val c) 0 ds"

text \<open>The integer part \<^verbatim>\<open>-?(?:0|[1-9]\d*)\<close>: its sign, its digits and the rest.\<close>

definition scan_int :: "string \<Rightarrow> (bool \<times> string \<times> string) option" where
  "scan_int s =
     (let neg = str_startswith s ''-'';
          t = (if neg then drop 1 s else s)
      in case t of
           [] \<Rightarrow> None
         | c # cs \<Rightarrow>
             if c = CHR ''0'' then Some (neg, [c], cs)
             else if is_digit c then
               Some (neg, c # takeWhile is_digit cs, dropWhile is_digit cs)
             else None)"

text \<open>The optional fraction \<^verbatim>\<open>(\.\d+)?\<close> and exponent \<^verbatim>\<open>([eE][-+]?\d+)?\<close>.\<close>

definition scan_frac :: "string \<Rightarrow> string \<times> string" where
  "scan_frac s =
     (case s of
        c # d # cs \<Rightarrow>
          if c = CHR ''.'' \<and> is_digit d
          then (c # d # takeWhile is_digit cs, dropWhile is_digit cs)
          else ([], s)
      | _ \<Rightarrow> ([], s))"

definition scan_exp :: "string \<Rightarrow> string \<times> string" where
  "scan_exp s =
     (case s of
        e # c # cs \<Rightarrow>
          if e = CHR ''e'' \<or> e = CHR ''E'' then
            (if is_digit c
             then (e # c # takeWhile is_digit cs, dropWhile is_digit cs)
             else if c = CHR ''+'' \<or> c = CHR ''-'' then
               (case cs of
                  d # ds \<Rightarrow>
                    if is_digit d
                    then (e # c # d # takeWhile is_digit ds, dropWhile is_digit ds)
                    else ([], s)
                | [] \<Rightarrow> ([], s))
             else ([], s))
          else ([], s)
      | _ \<Rightarrow> ([], s))"

definition scan_number :: "string \<Rightarrow> (json \<times> string) option" where
  "scan_number s =
     (case scan_int s of
        None \<Rightarrow> None
      | Some (neg, ds, r) \<Rightarrow>
          (let (frac, r1) = scan_frac r;
               (ex, r2) = scan_exp r1
           in if frac = [] \<and> ex = []
              then Some (JInt (if neg then - int (nat_of_digits ds)
                               else int (nat_of_digits ds)), r2)
              else Some (JFloat ((if neg then ''-'' else []) @ ds @ frac @ ex), r2)))"

definition hex_val :: "char \<Rightarrow> nat option" where
  "hex_val c =
     (if is_digit c then Some (of_char c - 48)
      else if 97 \<le> (of_char c :: nat) \<and> (of_char c :: nat) \<le> 102
        then Some (of_char c - 87)
      else if 65 \<le> (of_char c :: nat) \<and> (of_char c :: nat) \<le> 70
        then Some (of_char c - 55)
      else None)"

definition hex4 :: "string \<Rightarrow> nat option" where
  "hex4 s =
     (case map hex_val (take 4 s) of
        [Some a, Some b, Some c, Some d] \<Rightarrow> Some (((a * 16 + b) * 16 + c) * 16 + d)
      | _ \<Rightarrow> None)"

definition unescape :: "char \<Rightarrow> char option" where
  "unescape e =
     (if e = CHR 0x22 \<or> e = CHR 0x5C \<or> e = CHR ''/'' then Some e
      else if e = CHR ''b'' then Some (CHR 0x08)
      else if e = CHR ''f'' then Some (CHR 0x0C)
      else if e = CHR ''n'' then Some (CHR 0x0A)
      else if e = CHR ''r'' then Some (CHR 0x0D)
      else if e = CHR ''t'' then Some (CHR 0x09)
      else None)"

text \<open>The body of a string, read from just after its opening quote.\<close>

fun scanstring :: "string \<Rightarrow> (string \<times> string) option" where
  "scanstring [] = None"
| "scanstring [c] = (if c = CHR 0x22 then Some ([], []) else None)"
| "scanstring (c # e # cs) =
     (if c = CHR 0x22 then Some ([], e # cs)
      else if c = CHR 0x5C then
        (if e = CHR ''u'' then
           (case hex4 cs of
              None \<Rightarrow> None
            | Some n \<Rightarrow>
                if n < 256 then
                  (case scanstring (drop 4 cs) of
                     None \<Rightarrow> None
                   | Some (t, r) \<Rightarrow> Some (char_of n # t, r))
                else None)
         else
           (case unescape e of
              None \<Rightarrow> None
            | Some ch \<Rightarrow>
                (case scanstring cs of
                   None \<Rightarrow> None
                 | Some (t, r) \<Rightarrow> Some (ch # t, r))))
      else if (of_char c :: nat) < 32 then None
      else
        (case scanstring (e # cs) of
           None \<Rightarrow> None
         | Some (t, r) \<Rightarrow> Some (c # t, r)))"

text \<open>\<^verbatim>\<open>dict(pairs)\<close>: a repeated key keeps its first place and takes the last value.\<close>

definition dict_of_pairs :: "(string \<times> json) list \<Rightarrow> (string \<times> json) list" where
  "dict_of_pairs pairs = foldl (\<lambda>d kv. AList.update (fst kv) (snd kv) d) [] pairs"

definition scan_literal :: "string \<Rightarrow> (json \<times> string) option" where
  "scan_literal s =
     (if str_startswith s ''null'' then Some (JNull, drop 4 s)
      else if str_startswith s ''true'' then Some (JBool True, drop 4 s)
      else if str_startswith s ''false'' then Some (JBool False, drop 5 s)
      else (case scan_number s of
              Some r \<Rightarrow> Some r
            | None \<Rightarrow>
                if str_startswith s ''NaN'' then Some (JFloat ''NaN'', drop 3 s)
                else if str_startswith s ''Infinity''
                  then Some (JFloat ''Infinity'', drop 8 s)
                else if str_startswith s ''-Infinity''
                  then Some (JFloat ''-Infinity'', drop 9 s)
                else None))"

text \<open>
  \<open>scan_once\<close> reads one value at the head of the text (it skips no whitespace itself,
  as the module's scanner). \<open>scan_elements\<close> reads \<^verbatim>\<open>value (, value)* ]\<close> and
  \<open>scan_members\<close> reads \<^verbatim>\<open>"key" : value (, "key" : value)* }\<close>, each with whitespace
  allowed between the tokens.
\<close>

fun scan_once :: "nat \<Rightarrow> string \<Rightarrow> (json \<times> string) option"
  and scan_elements :: "nat \<Rightarrow> string \<Rightarrow> (json list \<times> string) option"
  and scan_members :: "nat \<Rightarrow> string \<Rightarrow> ((string \<times> json) list \<times> string) option"
where
  "scan_once 0 s = None"
| "scan_once (Suc n) [] = None"
| "scan_once (Suc n) (c # cs) =
     (if c = CHR 0x22 then
        (case scanstring cs of
           None \<Rightarrow> None
         | Some (t, r) \<Rightarrow> Some (JString t, r))
      else if c = CHR ''{'' then
        (case skip_ws cs of
           [] \<Rightarrow> None
         | d # ds \<Rightarrow>
             if d = CHR ''}'' then Some (JObject [], ds)
             else (case scan_members n (d # ds) of
                     None \<Rightarrow> None
                   | Some (kvs, r) \<Rightarrow> Some (JObject (dict_of_pairs kvs), r)))
      else if c = CHR ''['' then
        (case skip_ws cs of
           [] \<Rightarrow> None
         | d # ds \<Rightarrow>
             if d = CHR '']'' then Some (JArray [], ds)
             else (case scan_elements n (d # ds) of
                     None \<Rightarrow> None
                   | Some (vs, r) \<Rightarrow> Some (JArray vs, r)))
      else scan_literal (c # cs))"
| "scan_elements 0 s = None"
| "scan_elements (Suc n) s =
     (case scan_once n s of
        None \<Rightarrow> None
      | Some (v, r) \<Rightarrow>
          (case skip_ws r of
             [] \<Rightarrow> None
           | d # ds \<Rightarrow>
               if d = CHR '']'' then Some ([v], ds)
               else if d = CHR '','' then
                 (case scan_elements n (skip_ws ds) of
                    None \<Rightarrow> None
                  | Some (vs, r') \<Rightarrow> Some (v # vs, r'))
               else None))"
| "scan_members 0 s = None"
| "scan_members (Suc n) [] = None"
| "scan_members (Suc n) (q # cs) =
     (if q \<noteq> CHR 0x22 then None
      else
        (case scanstring cs of
           None \<Rightarrow> None
         | Some (k, r) \<Rightarrow>
             (case skip_ws r of
                [] \<Rightarrow> None
              | colon # r1 \<Rightarrow>
                  if colon \<noteq> CHR '':'' then None
                  else
                    (case scan_once n (skip_ws r1) of
                       None \<Rightarrow> None
                     | Some (v, r2) \<Rightarrow>
                         (case skip_ws r2 of
                            [] \<Rightarrow> None
                          | d # ds \<Rightarrow>
                              if d = CHR ''}'' then Some ([(k, v)], ds)
                              else if d = CHR '','' then
                                (case scan_members n (skip_ws ds) of
                                   None \<Rightarrow> None
                                 | Some (kvs, r') \<Rightarrow> Some ((k, v) # kvs, r'))
                              else None)))))"

definition json_loads :: "string \<Rightarrow> py_error + json" where
  "json_loads s =
     (case scan_once (Suc (3 * length s)) (skip_ws s) of
        None \<Rightarrow> Inl JSONDecodeError
      | Some (v, r) \<Rightarrow> if skip_ws r = [] then Inr v else Inl JSONDecodeError)"

section \<open>Image intake: save_uploaded_images\<close>

text \<open>
  The file system is the set of directories and the blobs by path. What the operating
  system refuses (a full disk, a missing permission, a path that cannot be opened for
  writing) is the parameter \<open>denied\<close>; \<^verbatim>\<open>os.makedirs\<close> and \<^verbatim>\<open>open\<close> raise there, and the
  function, which has no handler, raises with them: the result is \<open>Inl\<close>, and what
  was written before stays written.
\<close>

record filesystem =
  dirs :: "string set"
  files :: "string \<rightharpoonup> string"

record UploadedFile =
  name :: string
  getbuffer :: string

fun write_files ::
  "(string \<Rightarrow> bool) \<Rightarrow> string list \<Rightarrow> filesystem \<Rightarrow> UploadedFile list
     \<Rightarrow> (py_error + string list) \<times> filesystem" where
  "write_files denied paths fs [] = (Inr paths, fs)"
| "write_files denied paths fs (file # rest) =
     (let file_path = os_path_join ''uploaded_images'' (name file)
      in if denied file_path then (Inl OSError, fs)
         else write_files denied (paths @ [file_path])
                (fs\<lparr>files := (files fs)(file_path \<mapsto> getbuffer file)\<rparr>) rest)"

definition save_uploaded_images ::
  "(string \<Rightarrow> bool) \<Rightarrow> filesystem \<Rightarrow> UploadedFile list
     \<Rightarrow> (py_error + string list) \<times> filesystem" where
  "save_uploaded_images denied fs uploaded_files =
     (if denied ''uploaded_images'' then (Inl OSError, fs)
      else write_files denied []
             (fs\<lparr>dirs := insert ''uploaded_images'' (dirs fs)\<rparr>) uploaded_files)"

section \<open>Response normalizer: extract_invoice_data_with_gemini\<close>

text \<open>
  Lines 94 to 98: the two fence checks and the one \<^verbatim>\<open>strip\<close>. \<^verbatim>\<open>result_text[7:]\<close> is
  \<open>drop 7\<close> and \<^verbatim>\<open>result_text[:-3]\<close> is \<open>take (length - 3)\<close>.
\<close>

definition clean_result_text :: "string \<Rightarrow> string" where
  "clean_result_text result_text =
     (let t1 = (if str_startswith result_text ''```json''
                then drop 7 result_text else result_text);
          t2 = (if str_endswith t1 ''```''
                then take (length t1 - 3) t1 else t1)
      in str_strip t2)"

text \<open>
  Lines 92 to 103, from the response's text on: clean it, hand it to \<^verbatim>\<open>json.loads\<close>,
  return what that returns; \<^verbatim>\<open>except Exception\<close> turns every raise into the return
  value \<^verbatim>\<open>None\<close>. This is the spec's \<open>normalize\<close>; its \<^verbatim>\<open>InvalidJSON\<close> is the \<^verbatim>\<open>None\<close>.
\<close>

definition normalize :: "(string \<Rightarrow> 'e + json) \<Rightarrow> string \<Rightarrow> json" where
  "normalize loads result_text =
     (case loads (clean_result_text result_text) of
        Inl e \<Rightarrow> JNull
      | Inr data \<Rightarrow> data)"

text \<open>
  The whole function. Opening an image (PIL) and the model call are outside the
  repository: \<open>image_open\<close> and \<open>generate_content\<close> are parameters, each returning
  its value or raising. The first image that fails to open ends the call with \<^verbatim>\<open>None\<close>;
  so does a failing model call.
\<close>

fun load_images :: "(string \<Rightarrow> 'x + 'img) \<Rightarrow> string list \<Rightarrow> 'x + 'img list" where
  "load_images image_open [] = Inr []"
| "load_images image_open (path # rest) =
     (case image_open path of
        Inl e \<Rightarrow> Inl e
      | Inr img \<Rightarrow>
          (case load_images image_open rest of
             Inl e \<Rightarrow> Inl e
           | Inr images \<Rightarrow> Inr (img # images)))"

definition extract_invoice_data_with_gemini ::
  "(string \<Rightarrow> 'x + 'img) \<Rightarrow> ('img list \<Rightarrow> 'y + string) \<Rightarrow> (string \<Rightarrow> 'e + json)
     \<Rightarrow> string list \<Rightarrow> json" where
  "extract_invoice_data_with_gemini image_open generate_content loads image_paths =
     (case load_images image_open image_paths of
        Inl e \<Rightarrow> JNull
      | Inr images \<Rightarrow>
          (case generate_content images of
             Inl e \<Rightarrow> JNull
           | Inr result_text \<Rightarrow> normalize loads result_text))"

text \<open>
  The spec's algorithm for the normalizer, in the spec's words (section 4.3, steps 1
  to 5): trim, remove the opening marker, remove the closing marker, trim again, parse.
  It is stated here to be compared with the code.
\<close>

definition spec_clean :: "string \<Rightarrow> string" where
  "spec_clean raw =
     (let t0 = str_strip raw;
          t1 = (if str_startswith t0 ''```json'' then drop 7 t0 else t0);
          t2 = (if str_endswith t1 ''```'' then take (length t1 - 3) t1 else t1)
      in str_strip t2)"

definition spec_normalize :: "(string \<Rightarrow> 'e + json) \<Rightarrow> string \<Rightarrow> json" where
  "spec_normalize loads raw =
     (case loads (spec_clean raw) of
        Inl e \<Rightarrow> JNull
      | Inr data \<Rightarrow> data)"

text \<open>
  The exact fence format of the spec's section 8, and the outer shape of a JSON object
  text: once trimmed it opens with a brace and closes with a brace. Every valid JSON
  object text has this shape (the grammar of an object is a brace, members, a brace,
  with whitespace allowed around it).
\<close>

definition wrap_in_fence :: "string \<Rightarrow> string" where
  "wrap_in_fence j = ''```json'' @ [CHR 0x0A] @ j @ [CHR 0x0A] @ ''```''"

definition json_object_text :: "string \<Rightarrow> bool" where
  "json_object_text j =
     (case str_strip j of
        [] \<Rightarrow> False
      | c # cs \<Rightarrow> c = CHR ''{'' \<and> last (c # cs) = CHR ''}'')"

section \<open>Invoice store\<close>

text \<open>
  The two tables, rows in insertion order. A column holds the Python value the code put
  there. \<open>header_args\<close> and \<open>line_args\<close> are the objects as the constructors build
  them (lines 109 to 115 and 120 to 126); the rows add what the INSERT assigns: the
  primary key, and for a header \<open>created_at\<close>, whose default is the clock at insert.
\<close>

record header_args =
  supplier :: json
  invoice_date :: json
  total_amount :: json
  tax :: json
  image_paths :: string

record InvoiceHeader = header_args +
  id_header :: nat
  created_at :: int

record line_args =
  header_id :: nat
  description :: json
  quantity :: json
  unit_price :: json
  amount :: json

record InvoiceLineItem = line_args +
  id_line :: nat

record database =
  invoice_header :: "InvoiceHeader list"
  invoice_line_items :: "InvoiceLineItem list"

text \<open>An integer primary key of SQLite: one more than the largest in the table.\<close>

definition next_id :: "nat list \<Rightarrow> nat" where
  "next_id ids = Suc (fold max ids 0)"

definition header_row :: "nat \<Rightarrow> int \<Rightarrow> header_args \<Rightarrow> InvoiceHeader" where
  "header_row i now h =
     \<lparr>supplier = supplier h, invoice_date = invoice_date h,
      total_amount = total_amount h, tax = tax h, image_paths = image_paths h,
      id_header = i, created_at = now\<rparr>"

definition line_row :: "nat \<Rightarrow> line_args \<Rightarrow> InvoiceLineItem" where
  "line_row i l =
     \<lparr>header_id = header_id l, description = description l, quantity = quantity l,
      unit_price = unit_price l, amount = amount l, id_line = i\<rparr>"

text \<open>
  A session: the tables as its connection sees them (its own uncommitted writes
  included), the tables as they were when its transaction began (\<open>None\<close>: no
  transaction is open), the objects added and not yet flushed, and the number of
  statements it has sent. The parameter \<open>fails\<close> says which statements the database
  refuses, by their position in the session: any constraint violation or connection
  loss is some choice of \<open>fails\<close>.
\<close>

record session =
  tables :: database
  snapshot :: "database option"
  pending :: "line_args list"
  executed :: nat

datatype statement =
    INSERT_header header_args
  | INSERT_line line_args
  | COMMIT
  | SELECT_header nat

definition Session :: "database \<Rightarrow> session" where
  "Session db = \<lparr>tables = db, snapshot = None, pending = [], executed = 0\<rparr>"

text \<open>
  One statement: a transaction begins with the first statement sent while none is
  open; a refused statement raises; an INSERT appends its row and returns the key;
  COMMIT makes the writes permanent and ends the transaction; a SELECT of a header by
  its key returns the key of the row it finds, and raises when there is none.
\<close>

definition execute ::
  "(nat \<Rightarrow> bool) \<Rightarrow> int \<Rightarrow> statement \<Rightarrow> session \<Rightarrow> (py_error + nat) \<times> session" where
  "execute fails now st s =
     (let k = executed s;
          db = tables s;
          s1 = s\<lparr>executed := Suc k,
                 snapshot := Some (case snapshot s of None \<Rightarrow> db | Some d \<Rightarrow> d)\<rparr>
      in if fails k then (Inl DatabaseError, s1)
         else
           (case st of
              INSERT_header h \<Rightarrow>
                (let i = next_id (map id_header (invoice_header db))
                 in (Inr i, s1\<lparr>tables :=
                       db\<lparr>invoice_header := invoice_header db @ [header_row i now h]\<rparr>\<rparr>))
            | INSERT_line l \<Rightarrow>
                (let i = next_id (map id_line (invoice_line_items db))
                 in (Inr i, s1\<lparr>tables :=
                       db\<lparr>invoice_line_items := invoice_line_items db @ [line_row i l]\<rparr>\<rparr>))
            | COMMIT \<Rightarrow> (Inr 0, s1\<lparr>snapshot := None\<rparr>)
            | SELECT_header i \<Rightarrow>
                (case find (\<lambda>h. id_header h = i) (invoice_header db) of
                   None \<Rightarrow> (Inl DatabaseError, s1)
                 | Some h \<Rightarrow> (Inr (id_header h), s1))))"

text \<open>\<^verbatim>\<open>session.add(line)\<close>: the object waits for the next flush.\<close>

definition session_add :: "line_args \<Rightarrow> session \<Rightarrow> session" where
  "session_add l s = s\<lparr>pending := pending s @ [l]\<rparr>"

text \<open>The flush: one INSERT for each waiting object, in the order they were added.\<close>

fun flush_lines ::
  "(nat \<Rightarrow> bool) \<Rightarrow> int \<Rightarrow> line_args list \<Rightarrow> session \<Rightarrow> (py_error + nat) \<times> session" where
  "flush_lines fails now [] s = (Inr 0, s)"
| "flush_lines fails now (l # ls) s =
     (case execute fails now (INSERT_line l) s of
        (Inl e, s') \<Rightarrow> (Inl e, s')
      | (Inr i, s') \<Rightarrow> flush_lines fails now ls s')"

definition session_flush ::
  "(nat \<Rightarrow> bool) \<Rightarrow> int \<Rightarrow> session \<Rightarrow> (py_error + nat) \<times> session" where
  "session_flush fails now s = flush_lines fails now (pending s) (s\<lparr>pending := []\<rparr>)"

text \<open>\<^verbatim>\<open>session.commit()\<close>: flush, then COMMIT.\<close>

definition session_commit ::
  "(nat \<Rightarrow> bool) \<Rightarrow> int \<Rightarrow> session \<Rightarrow> (py_error + nat) \<times> session" where
  "session_commit fails now s =
     (case session_flush fails now s of
        (Inl e, s') \<Rightarrow> (Inl e, s')
      | (Inr i, s') \<Rightarrow> execute fails now COMMIT s')"

text \<open>
  \<^verbatim>\<open>session.rollback()\<close> puts the tables back as they were when the transaction began
  and forgets the waiting objects; \<^verbatim>\<open>session.close()\<close> does the same to a transaction
  still open and gives the connection back: what is left is the database.
\<close>

definition session_rollback :: "session \<Rightarrow> session" where
  "session_rollback s =
     s\<lparr>tables := (case snapshot s of None \<Rightarrow> tables s | Some d \<Rightarrow> d),
       snapshot := None, pending := []\<rparr>"

definition session_close :: "session \<Rightarrow> database" where
  "session_close s = tables (session_rollback s)"

subsection \<open>save_invoice_to_db\<close>

text \<open>Lines 109 to 115: the header object; each \<^verbatim>\<open>.get\<close> may raise.\<close>

definition new_header :: "json \<Rightarrow> string list \<Rightarrow> py_error + header_args" where
  "new_header extracted_data image_paths' =
     (case dict_get extracted_data ''supplier'' of
        Inl e \<Rightarrow> Inl e
      | Inr v1 \<Rightarrow>
     (case dict_get extracted_data ''invoice_date'' of
        Inl e \<Rightarrow> Inl e
      | Inr v2 \<Rightarrow>
     (case dict_get extracted_data ''total_amount'' of
        Inl e \<Rightarrow> Inl e
      | Inr v3 \<Rightarrow>
     (case dict_get extracted_data ''tax'' of
        Inl e \<Rightarrow> Inl e
      | Inr v4 \<Rightarrow>
          Inr \<lparr>supplier = v1, invoice_date = v2, total_amount = v3, tax = v4,
               image_paths = str_join '','' image_paths'\<rparr>))))"

text \<open>Lines 120 to 126: one line-item object.\<close>

definition new_line :: "nat \<Rightarrow> json \<Rightarrow> py_error + line_args" where
  "new_line hid item =
     (case dict_get item ''description'' of
        Inl e \<Rightarrow> Inl e
      | Inr v1 \<Rightarrow>
     (case dict_get item ''quantity'' of
        Inl e \<Rightarrow> Inl e
      | Inr v2 \<Rightarrow>
     (case dict_get item ''unit_price'' of
        Inl e \<Rightarrow> Inl e
      | Inr v3 \<Rightarrow>
     (case dict_get item ''amount'' of
        Inl e \<Rightarrow> Inl e
      | Inr v4 \<Rightarrow>
          Inr \<lparr>header_id = hid, description = v1, quantity = v2, unit_price = v3,
               amount = v4\<rparr>))))"

text \<open>The loop of lines 119 to 127 over the items: build the object, add it.\<close>

fun add_lines :: "nat \<Rightarrow> json list \<Rightarrow> session \<Rightarrow> (py_error + nat) \<times> session" where
  "add_lines hid [] s = (Inr hid, s)"
| "add_lines hid (item # items) s =
     (case new_line hid item of
        Inl e \<Rightarrow> (Inl e, s)
      | Inr line \<Rightarrow> add_lines hid items (session_add line s))"

text \<open>
  The \<^verbatim>\<open>try\<close> block, lines 109 to 130. \<^verbatim>\<open>session.add(header)\<close> and \<^verbatim>\<open>session.flush()\<close>
  send the header's INSERT, which assigns \<^verbatim>\<open>header.id\<close>. The session is made by
  \<^verbatim>\<open>sessionmaker(bind=engine)\<close>, whose default expires every object at commit, so the
  \<^verbatim>\<open>header.id\<close> read by \<^verbatim>\<open>return header.id\<close> (line 130), after the commit, loads the
  header again: one more statement, in a new transaction, that the database may refuse.
  The block returns \<^verbatim>\<open>header.id\<close> or the exception raised, and the session as it
  stands then.
\<close>

definition try_block ::
  "(nat \<Rightarrow> bool) \<Rightarrow> int \<Rightarrow> json \<Rightarrow> string list \<Rightarrow> session
     \<Rightarrow> (py_error + nat) \<times> session" where
  "try_block fails now extracted_data image_paths' s =
     (case new_header extracted_data image_paths' of
        Inl e \<Rightarrow> (Inl e, s)
      | Inr header \<Rightarrow>
          (case execute fails now (INSERT_header header) s of
             (Inl e, s1) \<Rightarrow> (Inl e, s1)
           | (Inr hid, s1) \<Rightarrow>
               (case dict_get_default extracted_data ''line_items'' (JArray []) of
                  Inl e \<Rightarrow> (Inl e, s1)
                | Inr v \<Rightarrow>
                    (case py_iter v of
                       Inl e \<Rightarrow> (Inl e, s1)
                     | Inr items \<Rightarrow>
                         (case add_lines hid items s1 of
                            (Inl e, s2) \<Rightarrow> (Inl e, s2)
                          | (Inr _, s2) \<Rightarrow>
                              (case session_commit fails now s2 of
                                 (Inl e, s3) \<Rightarrow> (Inl e, s3)
                               | (Inr _, s3) \<Rightarrow>
                                   execute fails now (SELECT_header hid) s3))))))"

text \<open>
  The function: a new session on the database; the \<^verbatim>\<open>try\<close> block; on an exception
  \<^verbatim>\<open>rollback\<close> and the return value \<^verbatim>\<open>None\<close> (the spec's \<^verbatim>\<open>StoreError(WriteFailed)\<close>);
  \<^verbatim>\<open>close\<close> on every path. The result is the return value and the database afterwards.
\<close>

definition save_invoice_to_db ::
  "(nat \<Rightarrow> bool) \<Rightarrow> int \<Rightarrow> json \<Rightarrow> string list \<Rightarrow> database
     \<Rightarrow> nat option \<times> database" where
  "save_invoice_to_db fails now extracted_data image_paths' db =
     (case try_block fails now extracted_data image_paths' (Session db) of
        (Inr hid, s) \<Rightarrow> (Some hid, session_close s)
      | (Inl e, s) \<Rightarrow> (None, session_close (session_rollback s)))"

subsection \<open>get_all_invoices and get_invoice_detail\<close>

text \<open>
  \<^verbatim>\<open>ORDER BY created_at DESC\<close> over the table in insertion order. The engine's sort is
  taken to be stable (rows with equal keys keep their table order): the query names no
  second key.
\<close>

definition get_all_invoices :: "database \<Rightarrow> InvoiceHeader list" where
  "get_all_invoices db = sort_key (\<lambda>h. - created_at h) (invoice_header db)"

text \<open>
  What a query returns is an ORM object: its columns, loaded; its \<^verbatim>\<open>line_items\<close>
  relationship, which is lazy (the default of \<^verbatim>\<open>relationship\<close>) and so not loaded until
  first read; and whether the object still belongs to an open session. Reading
  \<^verbatim>\<open>line_items\<close> loads it through the session; once the session is closed the object is
  detached and the read raises.
\<close>

record header_entity =
  columns :: InvoiceHeader
  line_items :: "InvoiceLineItem list option"
  attached :: bool

definition query_first :: "database \<Rightarrow> nat \<Rightarrow> header_entity option" where
  "query_first db invoice_id =
     (case find (\<lambda>h. id_header h = invoice_id) (invoice_header db) of
        None \<Rightarrow> None
      | Some h \<Rightarrow> Some \<lparr>columns = h, line_items = None, attached = True\<rparr>)"

definition detach :: "header_entity \<Rightarrow> header_entity" where
  "detach e = e\<lparr>attached := False\<rparr>"

definition get_invoice_detail :: "database \<Rightarrow> nat \<Rightarrow> header_entity option" where
  "get_invoice_detail db invoice_id = map_option detach (query_first db invoice_id)"

definition read_line_items ::
  "database \<Rightarrow> header_entity \<Rightarrow> py_error + InvoiceLineItem list" where
  "read_line_items db e =
     (case line_items e of
        Some ls \<Rightarrow> Inr ls
      | None \<Rightarrow>
          if attached e
          then Inr (filter (\<lambda>l. header_id l = id_header (columns e)) (invoice_line_items db))
          else Inl DetachedInstanceError)"

text \<open>
  The detail page, lines 251 to 253: the image paths it shows are the column split at
  the commas.
\<close>

definition detail_page_paths :: "InvoiceHeader \<Rightarrow> string list" where
  "detail_page_paths invoice =
     (if image_paths invoice = [] then [] else str_split (CHR '','') (image_paths invoice))"

section \<open>Names used in the statements\<close>




fun insert_lines :: "line_args list \<Rightarrow> InvoiceLineItem list \<Rightarrow> InvoiceLineItem list" where
  "insert_lines [] t = t"
| "insert_lines (l # ls) t = insert_lines ls (t @ [line_row (next_id (map id_line t)) l])"

text \<open>
  The line-item objects the loop of lines 119 to 127 builds for a header id, or the
  first exception one of its \<^verbatim>\<open>.get\<close> raises; and the database after a committed
  save: one more header row, and the rows of the flushed line items.
\<close>

fun new_lines :: "nat \<Rightarrow> json list \<Rightarrow> py_error + line_args list" where
  "new_lines hid [] = Inr []"
| "new_lines hid (item # items) =
     (case new_line hid item of
        Inl e \<Rightarrow> Inl e
      | Inr line \<Rightarrow>
          (case new_lines hid items of
             Inl e \<Rightarrow> Inl e
           | Inr ls \<Rightarrow> Inr (line # ls)))"

definition committed :: "int \<Rightarrow> nat \<Rightarrow> header_args \<Rightarrow> line_args list \<Rightarrow> database \<Rightarrow> database" where
  "committed now hid h ls db =
     \<lparr>invoice_header = invoice_header db @ [header_row hid now h],
      invoice_line_items = insert_lines ls (invoice_line_items db)\<rparr>"




text \<open>A database and an environment in which nothing is refused.\<close>

definition no_fault :: "'a \<Rightarrow> bool" where
  "no_fault x = False"

definition empty_db :: database where
  "empty_db = \<lparr>invoice_header = [], invoice_line_items = []\<rparr>"

text \<open>Example rows, files and a database for the closed statements.\<close>

definition example_header :: "nat \<Rightarrow> int \<Rightarrow> InvoiceHeader" where
  "example_header i t =
     \<lparr>supplier = JString ''Acme'', invoice_date = JNull, total_amount = JNull, tax = JNull,
      image_paths = ''uploaded_images/a.png'', id_header = i, created_at = t\<rparr>"

definition example_line :: InvoiceLineItem where
  "example_line =
     \<lparr>header_id = 1, description = JString ''Widget'', quantity = JInt 2,
      unit_price = JNull, amount = JNull, id_line = 1\<rparr>"

definition example_db :: database where
  "example_db = \<lparr>invoice_header = [example_header 1 10], invoice_line_items = [example_line]\<rparr>"


definition example_invoice :: json where
  "example_invoice =
     JObject [(''supplier'', JString ''Acme''),
              (''line_items'', JArray [JObject [(''description'', JString ''Widget''),
                                                (''quantity'', JInt 2)]])]"


section \<open>The reader on examples\<close>

lemma json_loads_examples:
  "json_loads ''{}'' = Inr (JObject [])"
  "json_loads '' [1, -20 ] '' = Inr (JArray [JInt 1, JInt (- 20)])"
  "json_loads ''not json'' = Inl JSONDecodeError"
  "json_loads ''{\"a\": \"x\", \"b\": [null, true, 1.5e3], \"a\": {}}''
     = Inr (JObject [(''a'', JObject []),
                     (''b'', JArray [JNull, JBool True, JFloat ''1.5e3''])])"
  "json_loads ''[1,]'' = Inl JSONDecodeError"
  "json_loads ''01'' = Inl JSONDecodeError"
  by code_simp+

section \<open>Lemmas on text\<close>

lemma str_startswith_append [simp]: "str_startswith (p @ r) p"
  by (simp add: str_startswith_def)

lemma str_endswith_append [simp]: "str_endswith (r @ p) p"
  by (simp add: str_endswith_def)

lemma str_startswith_iff: "str_startswith s p \<longleftrightarrow> (\<exists>r. s = p @ r)"
  unfolding str_startswith_def
  by (metis append_eq_conv_conj append_take_drop_id)

lemma str_endswith_iff: "str_endswith s p \<longleftrightarrow> (\<exists>r. s = r @ p)"
proof
  assume "str_endswith s p"
  then have "s = take (length s - length p) s @ p"
    unfolding str_endswith_def by (metis append_take_drop_id)
  then show "\<exists>r. s = r @ p" ..
next
  assume "\<exists>r. s = r @ p"
  then show "str_endswith s p" by (auto simp: str_endswith_def)
qed

lemma str_strip_decomp:
  "\<exists>pre post. s = pre @ str_strip s @ post
     \<and> (\<forall>c\<in>set pre. py_isspace c) \<and> (\<forall>c\<in>set post. py_isspace c)"
proof -
  let ?pre = "takeWhile py_isspace s"
  let ?m = "dropWhile py_isspace s"
  let ?post = "rev (takeWhile py_isspace (rev ?m))"
  have 1: "s = ?pre @ ?m" by simp
  have "rev (rev ?m) = rev (takeWhile py_isspace (rev ?m) @ dropWhile py_isspace (rev ?m))"
    by (simp only: takeWhile_dropWhile_id)
  then have "?m = rev (dropWhile py_isspace (rev ?m)) @ ?post"
    by (simp only: rev_rev_ident rev_append)
  then have 2: "?m = str_strip s @ ?post"
    by (simp only: str_strip_def str_rstrip_def str_lstrip_def)
  have 3: "\<forall>c\<in>set ?pre. py_isspace c" by (auto dest: set_takeWhileD)
  have 4: "\<forall>c\<in>set ?post. py_isspace c" by (auto dest: set_takeWhileD)
  from 1 2 have "s = ?pre @ str_strip s @ ?post" by simp
  with 3 4 show ?thesis by blast
qed

lemma str_strip_ends:
  assumes "str_strip s \<noteq> []"
  shows "\<not> py_isspace (hd (str_strip s))" and "\<not> py_isspace (last (str_strip s))"
proof -
  let ?m = "dropWhile py_isspace s"
  let ?r = "dropWhile py_isspace (rev ?m)"
  have r: "str_strip s = rev ?r" by (simp add: str_strip_def str_rstrip_def str_lstrip_def)
  with assms have rne: "?r \<noteq> []" by simp
  then have "\<not> py_isspace (hd ?r)" by (rule hd_dropWhile)
  then show "\<not> py_isspace (last (str_strip s))" using rne r by (simp add: last_rev)
  have mne: "?m \<noteq> []"
  proof
    assume "?m = []"
    then have "?r = []" by (simp only: rev.simps dropWhile.simps)
    with rne show False by (simp only: not_True_eq_False simp_thms)
  qed
  then have hm: "\<not> py_isspace (hd ?m)" by (rule hd_dropWhile)
  have "rev ?m = takeWhile py_isspace (rev ?m) @ ?r" by (simp only: takeWhile_dropWhile_id)
  then have "rev (rev ?m) = rev (takeWhile py_isspace (rev ?m) @ ?r)" by (rule arg_cong)
  then have "?m = rev ?r @ rev (takeWhile py_isspace (rev ?m))"
    by (simp only: rev_rev_ident rev_append)
  then have "hd ?m = hd (rev ?r @ rev (takeWhile py_isspace (rev ?m)))" by (rule arg_cong)
  then have "hd ?m = hd (rev ?r)" using rne by (simp only: hd_append2 rev_is_Nil_conv not_False_eq_True if_False)
  with hm r show "\<not> py_isspace (hd (str_strip s))" by simp
qed

lemma str_strip_Nil [simp]: "str_strip [] = []"
  by (simp add: str_strip_def str_rstrip_def str_lstrip_def)

lemma str_strip_idem: "str_strip (str_strip s) = str_strip s"
proof (cases "str_strip s = []")
  case True then show ?thesis by simp
next
  case False
  then have h: "\<not> py_isspace (hd (str_strip s))" and l: "\<not> py_isspace (last (str_strip s))"
    by (rule str_strip_ends)+
  from False h have 1: "str_lstrip (str_strip s) = str_strip s"
    by (cases "str_strip s") (auto simp: str_lstrip_def)
  from False l have "dropWhile py_isspace (rev (str_strip s)) = rev (str_strip s)"
    by (cases "rev (str_strip s)") (auto simp: last_rev hd_rev)
  then have 2: "str_rstrip (str_strip s) = str_strip s"
    by (simp add: str_rstrip_def)
  show ?thesis using 1 2 by (simp add: str_strip_def[of "str_strip s"])
qed

lemma str_strip_ws_around:
  assumes "\<forall>c\<in>set pre. py_isspace c" "\<forall>c\<in>set post. py_isspace c"
  shows "str_strip (pre @ s @ post) = str_strip s"
proof -
  have l: "str_lstrip (pre @ s @ post) = str_lstrip (s @ post)"
    using assms(1) by (simp add: str_lstrip_def dropWhile_append2)
  have r: "str_rstrip (x @ post) = str_rstrip x" for x
  proof -
    have "dropWhile py_isspace (rev post @ rev x) = dropWhile py_isspace (rev x)"
      by (rule dropWhile_append2) (use assms(2) in auto)
    then show ?thesis by (simp add: str_rstrip_def)
  qed
  show ?thesis
  proof (cases "\<forall>c\<in>set s. py_isspace c")
    case True
    then have "str_lstrip (s @ post) = []" "str_lstrip s = []"
      using assms(2) by (auto simp: str_lstrip_def)
    then show ?thesis using l by (simp add: str_strip_def)
  next
    case False
    then obtain x where x: "x \<in> set s" "\<not> py_isspace x" by blast
    then have a: "str_lstrip (s @ post) = str_lstrip s @ post"
      by (simp add: str_lstrip_def dropWhile_append1)
    show ?thesis using l a r by (simp add: str_strip_def)
  qed
qed


section \<open>The normalizer and the fence\<close>

lemma clean_no_fence:
  "\<not> str_startswith s ''```json'' \<Longrightarrow> \<not> str_endswith s ''```''
     \<Longrightarrow> clean_result_text s = str_strip s"
  by (simp add: clean_result_text_def)

lemma clean_wrap_in_fence: "clean_result_text (wrap_in_fence j) = str_strip j"
proof -
  have a: "wrap_in_fence j = ''```json'' @ ([CHR 0x0A] @ j @ [CHR 0x0A] @ ''```'')"
    by (simp add: wrap_in_fence_def)
  have b: "str_startswith (wrap_in_fence j) ''```json''"
    unfolding a by (rule str_startswith_append)
  have c: "drop 7 (wrap_in_fence j) = ([CHR 0x0A] @ j @ [CHR 0x0A]) @ ''```''"
    by (simp add: wrap_in_fence_def)
  have d: "str_endswith (([CHR 0x0A] @ j @ [CHR 0x0A]) @ ''```'') ''```''"
    by (rule str_endswith_append)
  have e: "take (length (([CHR 0x0A] @ j @ [CHR 0x0A]) @ ''```'') - 3)
             (([CHR 0x0A] @ j @ [CHR 0x0A]) @ ''```'') = [CHR 0x0A] @ j @ [CHR 0x0A]"
    by simp
  have f: "str_strip ([CHR 0x0A] @ j @ [CHR 0x0A]) = str_strip j"
    by (rule str_strip_ws_around) (simp_all add: py_isspace_def)
  show ?thesis
    unfolding clean_result_text_def Let_def using b d e f by (simp only: c if_True)
qed

lemma json_object_text_no_fence:
  assumes "json_object_text j"
  shows "\<not> str_startswith j ''```json''" and "\<not> str_endswith j ''```''"
proof -
  from assms obtain cs where st: "str_strip j = CHR ''{'' # cs" and la: "last (CHR ''{'' # cs) = CHR ''}''"
    by (auto simp: json_object_text_def split: list.splits)
  obtain pre post where d: "j = pre @ str_strip j @ post"
    and pre: "\<forall>c\<in>set pre. py_isspace c" and post: "\<forall>c\<in>set post. py_isspace c"
    using str_strip_decomp by blast
  have jne: "j \<noteq> []" using d st by auto
  have "hd j = CHR ''{'' \<or> py_isspace (hd j)"
  proof (cases pre)
    case Nil then show ?thesis using d st by (metis append_Nil hd_append2 list.sel(1) list.distinct(1))
  next
    case (Cons a as) then show ?thesis using d pre by (metis hd_append2 list.sel(1) list.set_intros(1) list.distinct(1))
  qed
  then have h: "hd j \<noteq> CHR 0x60" by (auto simp: py_isspace_def)
  show "\<not> str_startswith j ''```json''"
  proof
    assume "str_startswith j ''```json''"
    then obtain r where "j = ''```json'' @ r" unfolding str_startswith_iff ..
    then have "hd j = CHR 0x60" by simp
    with h show False by simp
  qed
  have "last j = CHR ''}'' \<or> py_isspace (last j)"
  proof (cases "post = []")
    case True
    then have "j = pre @ (CHR ''{'' # cs)" using d st by simp
    then have "last j = last (CHR ''{'' # cs)" by simp
    then show ?thesis using la by simp
  next
    case False
    then have "last j = last post" using d by (metis append_assoc last_appendR)
    then show ?thesis using post False by (metis last_in_set)
  qed
  then have l: "last j \<noteq> CHR 0x60" by (auto simp: py_isspace_def)
  show "\<not> str_endswith j ''```''"
  proof
    assume "str_endswith j ''```''"
    then obtain r where "j = r @ ''```''" unfolding str_endswith_iff ..
    then have "last j = CHR 0x60" by simp
    with l show False by simp
  qed
qed

text \<open>
  Claim C3. For every JSON object text \<open>j\<close>, the normalizer returns the same value on
  \<open>j\<close> and on \<open>j\<close> wrapped in the exact fence format (the opening marker, a line feed,
  \<open>j\<close>, a line feed, the closing marker), whatever reader \<open>loads\<close> stands for
  \<^verbatim>\<open>json.loads\<close>. The hypothesis asks only for the outer shape of an object text, which
  every valid JSON object text has.
\<close>

theorem normalize_fenced_eq_clean:
  "json_object_text j \<Longrightarrow> normalize loads (wrap_in_fence j) = normalize loads j"
proof -
  assume a: "json_object_text j"
  have "clean_result_text j = str_strip j"
    using json_object_text_no_fence[OF a] by (rule clean_no_fence)
  then show ?thesis by (simp add: normalize_def clean_wrap_in_fence)
qed

theorem normalize_fenced_eq_clean_witness:
  "json_object_text ''{\"supplier\": \"Acme\", \"tax\": null}''
   \<and> normalize json_loads (wrap_in_fence ''{\"supplier\": \"Acme\", \"tax\": null}'')
       = JObject [(''supplier'', JString ''Acme''), (''tax'', JNull)]"
proof -
  have h: "json_object_text ''{\"supplier\": \"Acme\", \"tax\": null}''"
    by code_simp
  have v: "normalize json_loads ''{\"supplier\": \"Acme\", \"tax\": null}''
             = JObject [(''supplier'', JString ''Acme''), (''tax'', JNull)]"
    by code_simp
  show ?thesis
    using h v normalize_fenced_eq_clean [OF h, of json_loads] by simp
qed

lemma not_endswith_after_prefix:
  assumes "\<not> str_endswith (p @ body) q"
  shows "\<not> str_endswith body q"
proof
  assume "str_endswith body q"
  then obtain r where "body = r @ q" unfolding str_endswith_iff ..
  then have "p @ body = (p @ r) @ q" by simp
  then have "str_endswith (p @ body) q" unfolding str_endswith_iff by blast
  with assms show False by simp
qed

text \<open>
  Claim C10. The two fence checks are independent: a closing marker is removed from a
  text that has no opening marker, and an opening marker is removed from a text that has
  no closing marker; in both cases what is left is trimmed and only then parsed.
\<close>

theorem fence_checks_independent:
  "(\<not> str_startswith (body @ ''```'') ''```json''
      \<longrightarrow> clean_result_text (body @ ''```'') = str_strip body)
   \<and> (\<not> str_endswith (''```json'' @ body) ''```''
      \<longrightarrow> clean_result_text (''```json'' @ body) = str_strip body)
   \<and> normalize loads s =
       (case loads (clean_result_text s) of Inl e \<Rightarrow> JNull | Inr data \<Rightarrow> data)"
proof (intro conjI impI)
  assume a: "\<not> str_startswith (body @ ''```'') ''```json''"
  have "str_endswith (body @ ''```'') ''```''" by (rule str_endswith_append)
  then show "clean_result_text (body @ ''```'') = str_strip body"
    using a by (simp add: clean_result_text_def)
next
  assume a: "\<not> str_endswith (''```json'' @ body) ''```''"
  then have b: "\<not> str_endswith body ''```''" by (rule not_endswith_after_prefix)
  have c: "str_startswith (''```json'' @ body) ''```json''" by (rule str_startswith_append)
  have d: "drop 7 (''```json'' @ body) = body" by simp
  show "clean_result_text (''```json'' @ body) = str_strip body"
    unfolding clean_result_text_def Let_def using b c by (simp only: d if_True if_False)
next
  show "normalize loads s =
       (case loads (clean_result_text s) of Inl e \<Rightarrow> JNull | Inr data \<Rightarrow> data)"
    by (simp add: normalize_def)
qed

theorem fence_checks_independent_witness:
  "\<not> str_startswith (''{\"tax\": 1}'' @ ''```'') ''```json''
   \<and> normalize json_loads (''{\"tax\": 1}'' @ ''```'') = JObject [(''tax'', JInt 1)]
   \<and> \<not> str_endswith (''```json'' @ ''{\"tax\": 1}'') ''```''
   \<and> normalize json_loads (''```json'' @ ''{\"tax\": 1}'') = JObject [(''tax'', JInt 1)]"
proof -
  have a: "\<not> str_startswith (''{\"tax\": 1}'' @ ''```'') ''```json''" by code_simp
  have b: "\<not> str_endswith (''```json'' @ ''{\"tax\": 1}'') ''```''" by code_simp
  have c: "json_loads (str_strip ''{\"tax\": 1}'') = Inr (JObject [(''tax'', JInt 1)])"
    by code_simp
  note t1 = fence_checks_independent [of "''{\"tax\": 1}''" json_loads "''{\"tax\": 1}'' @ ''```''"]
  note t2 = fence_checks_independent [of "''{\"tax\": 1}''" json_loads "''```json'' @ ''{\"tax\": 1}''"]
  from t1 a have 1: "normalize json_loads (''{\"tax\": 1}'' @ ''```'') = JObject [(''tax'', JInt 1)]"
    using c by simp
  from t2 b have 2: "normalize json_loads (''```json'' @ ''{\"tax\": 1}'') = JObject [(''tax'', JInt 1)]"
    using c by simp
  show ?thesis using a b 1 2 by blast
qed

section \<open>The order of the normalizer's steps\<close>

text \<open>
  Claim C2 as stated fails: the code does not trim before the prefix check. On the
  exact fence format preceded by one space, the opening marker stays in the cleaned
  text and the code returns \<^verbatim>\<open>None\<close>, where the spec's five steps return the object.
\<close>

theorem normalize_leading_space_counterexample:
  "clean_result_text '' ```json\<newline>{}\<newline>```'' = ''```json\<newline>{}''
   \<and> normalize json_loads '' ```json\<newline>{}\<newline>```'' = JNull
   \<and> spec_normalize json_loads '' ```json\<newline>{}\<newline>```'' = JObject []"
  by code_simp

lemma spec_clean_eq: "spec_clean raw = clean_result_text (str_strip raw)"
  by (simp only: spec_clean_def clean_result_text_def Let_def)

lemma take_suffix3: "length p = 3 \<Longrightarrow> take (length (x @ p) - 3) (x @ p) = x"
  by simp

lemma clean_suffix_only:
  assumes "\<not> str_startswith (x @ ''```'') ''```json''"
  shows "clean_result_text (x @ ''```'') = str_strip x"
proof -
  have "str_endswith (x @ ''```'') ''```''" by (rule str_endswith_append)
  then show ?thesis using assms by (simp add: clean_result_text_def)
qed

lemma not_startswith_after_space:
  assumes "ws \<noteq> []" and "\<forall>c\<in>set ws. py_isspace c"
  shows "\<not> str_startswith (ws @ x) ''```json''"
proof
  assume "str_startswith (ws @ x) ''```json''"
  then obtain r where "ws @ x = ''```json'' @ r" unfolding str_startswith_iff ..
  then have "hd (ws @ x) = CHR 0x60" by simp
  with assms(1) have "hd ws = CHR 0x60" by simp
  moreover from assms have "py_isspace (hd ws)" by simp
  ultimately show False by (simp add: py_isspace_def)
qed

lemma str_rstrip_keeps_prefix:
  assumes "p \<noteq> []" and "\<not> py_isspace (last p)"
  shows "\<exists>t. str_rstrip (p @ x) = p @ t"
proof (cases "\<forall>c\<in>set x. py_isspace c")
  case True
  then have "dropWhile py_isspace (rev x @ rev p) = dropWhile py_isspace (rev p)"
    by (intro dropWhile_append2) simp
  also have "\<dots> = rev p"
    using assms by (cases "rev p") (auto simp: last_rev hd_rev)
  finally have "str_rstrip (p @ x) = p @ []" by (simp add: str_rstrip_def)
  then show ?thesis ..
next
  case False
  then obtain c where "c \<in> set (rev x)" "\<not> py_isspace c" by auto
  then have "dropWhile py_isspace (rev x @ rev p) = dropWhile py_isspace (rev x) @ rev p"
    by (rule dropWhile_append1)
  then have "str_rstrip (p @ x) = p @ rev (dropWhile py_isspace (rev x))"
    by (simp add: str_rstrip_def)
  then show ?thesis ..
qed

lemma str_strip_keeps_fence: "\<exists>t. str_strip (''```json'' @ b) = ''```json'' @ t"
proof -
  have "str_lstrip (''```json'' @ b) = ''```json'' @ b"
    by (simp add: str_lstrip_def py_isspace_def)
  moreover have "\<exists>t. str_rstrip (''```json'' @ b) = ''```json'' @ t"
    by (rule str_rstrip_keeps_prefix) (simp_all add: py_isspace_def)
  ultimately show ?thesis by (simp add: str_strip_def)
qed

lemma str_strip_leading_space:
  assumes "\<forall>c\<in>set ws. py_isspace c"
  shows "str_strip (ws @ x) = str_strip x"
  using str_strip_ws_around [of ws "[]" x] assms by simp

text \<open>
  Claim C2, amended. For every input the code does exactly this, in this order: the
  prefix check on the text as received, the suffix check on what is left, one trim, the
  parse. The four cases below cover every text (both markers, the opening one only, the
  closing one only, neither) and fix the cleaned text in each. Nothing is trimmed
  before the prefix check: a text whose opening marker is preceded by whitespace keeps
  the marker in the cleaned text. So the spec's five steps are the code run on the
  trimmed input, and the two agree on every input that has no whitespace to trim.
\<close>

theorem normalize_is_spec_without_first_trim:
  "normalize loads s = (case loads (clean_result_text s) of Inl e \<Rightarrow> JNull | Inr data \<Rightarrow> data)
   \<and> clean_result_text (''```json'' @ b @ ''```'') = str_strip b
   \<and> (\<not> str_endswith b ''```'' \<longrightarrow> clean_result_text (''```json'' @ b) = str_strip b)
   \<and> (\<not> str_startswith (b @ ''```'') ''```json''
        \<longrightarrow> clean_result_text (b @ ''```'') = str_strip b)
   \<and> (\<not> str_startswith s ''```json'' \<and> \<not> str_endswith s ''```''
        \<longrightarrow> clean_result_text s = str_strip s)
   \<and> (ws \<noteq> [] \<and> (\<forall>c\<in>set ws. py_isspace c)
        \<longrightarrow> clean_result_text (ws @ ''```json'' @ b @ ''```'') = str_strip (''```json'' @ b)
          \<and> (\<not> str_endswith (ws @ ''```json'' @ b) ''```''
               \<longrightarrow> clean_result_text (ws @ ''```json'' @ b) = str_strip (''```json'' @ b))
          \<and> (\<exists>t. str_strip (''```json'' @ b) = ''```json'' @ t))
   \<and> spec_normalize loads raw = normalize loads (str_strip raw)
   \<and> (str_strip raw = raw \<longrightarrow> normalize loads raw = spec_normalize loads raw)"
proof (intro conjI impI)
  show "normalize loads s = (case loads (clean_result_text s) of Inl e \<Rightarrow> JNull | Inr data \<Rightarrow> data)"
    by (simp add: normalize_def)
next
  have a: "str_startswith (''```json'' @ b @ ''```'') ''```json''" by (rule str_startswith_append)
  have d: "drop 7 (''```json'' @ b @ ''```'') = b @ ''```''" by simp
  have e: "str_endswith (b @ ''```'') ''```''" by (rule str_endswith_append)
  have t: "take (length (b @ ''```'') - 3) (b @ ''```'') = b" by (rule take_suffix3) simp
  show "clean_result_text (''```json'' @ b @ ''```'') = str_strip b"
    unfolding clean_result_text_def Let_def using a e by (simp only: d t if_True)
next
  assume n: "\<not> str_endswith b ''```''"
  have a: "str_startswith (''```json'' @ b) ''```json''" by (rule str_startswith_append)
  have d: "drop 7 (''```json'' @ b) = b" by simp
  show "clean_result_text (''```json'' @ b) = str_strip b"
    unfolding clean_result_text_def Let_def using a n by (simp only: d if_True if_False)
next
  assume n: "\<not> str_startswith (b @ ''```'') ''```json''"
  then show "clean_result_text (b @ ''```'') = str_strip b" by (rule clean_suffix_only)
next
  assume "\<not> str_startswith s ''```json'' \<and> \<not> str_endswith s ''```''"
  then show "clean_result_text s = str_strip s" by (simp add: clean_no_fence)
next
  assume w: "ws \<noteq> [] \<and> (\<forall>c\<in>set ws. py_isspace c)"
  then have "\<not> str_startswith (ws @ (''```json'' @ b) @ ''```'') ''```json''"
    by (intro not_startswith_after_space) simp_all
  then have "\<not> str_startswith ((ws @ ''```json'' @ b) @ ''```'') ''```json''"
    by simp
  then have "clean_result_text ((ws @ ''```json'' @ b) @ ''```'') = str_strip (ws @ ''```json'' @ b)"
    by (rule clean_suffix_only)
  then have "clean_result_text (ws @ ''```json'' @ b @ ''```'') = str_strip (ws @ ''```json'' @ b)"
    by simp
  moreover from w have "str_strip (ws @ ''```json'' @ b) = str_strip (''```json'' @ b)"
    by (intro str_strip_leading_space) simp
  ultimately show "clean_result_text (ws @ ''```json'' @ b @ ''```'') = str_strip (''```json'' @ b)"
    by (rule trans)
next
  assume w: "ws \<noteq> [] \<and> (\<forall>c\<in>set ws. py_isspace c)"
    and n: "\<not> str_endswith (ws @ ''```json'' @ b) ''```''"
  from w have ns: "\<not> str_startswith (ws @ ''```json'' @ b) ''```json''"
    by (intro not_startswith_after_space) simp_all
  have "clean_result_text (ws @ ''```json'' @ b) = str_strip (ws @ ''```json'' @ b)"
    using ns n by (rule clean_no_fence)
  moreover from w have "str_strip (ws @ ''```json'' @ b) = str_strip (''```json'' @ b)"
    by (intro str_strip_leading_space) simp
  ultimately show "clean_result_text (ws @ ''```json'' @ b) = str_strip (''```json'' @ b)"
    by (rule trans)
next
  show "\<exists>t. str_strip (''```json'' @ b) = ''```json'' @ t" by (rule str_strip_keeps_fence)
next
  show a: "spec_normalize loads raw = normalize loads (str_strip raw)"
    by (simp only: spec_normalize_def normalize_def spec_clean_eq)
  assume "str_strip raw = raw"
  then show "normalize loads raw = spec_normalize loads raw" by (simp add: a)
qed

theorem normalize_is_spec_without_first_trim_witness:
  "py_isspace (CHR '' '')
   \<and> clean_result_text ('' '' @ ''```json'' @ ''\<newline>{}\<newline>'' @ ''```'') = ''```json\<newline>{}''
   \<and> str_strip ''```json\<newline>{}\<newline>```'' = ''```json\<newline>{}\<newline>```''
   \<and> normalize json_loads ''```json\<newline>{}\<newline>```'' = JObject []
   \<and> spec_normalize json_loads ''```json\<newline>{}\<newline>```'' = JObject []"
proof -
  let ?X = "''```json\<newline>{}\<newline>```''"
  note t = normalize_is_spec_without_first_trim
    [where loads = json_loads and raw = ?X and ws = "'' ''" and b = "''\<newline>{}\<newline>''"]
  have w: "'' '' \<noteq> [] \<and> (\<forall>c\<in>set '' ''. py_isspace c)" by (simp add: py_isspace_def)
  have sp: "py_isspace (CHR '' '')" by (simp add: py_isspace_def)
  have e: "str_strip (''```json'' @ ''\<newline>{}\<newline>'') = ''```json\<newline>{}''" by code_simp
  from t w have "clean_result_text ('' '' @ ''```json'' @ ''\<newline>{}\<newline>'' @ ''```'')
                   = str_strip (''```json'' @ ''\<newline>{}\<newline>'')" by blast
  then have k: "clean_result_text ('' '' @ ''```json'' @ ''\<newline>{}\<newline>'' @ ''```'')
                   = ''```json\<newline>{}''" using e by (rule trans)
  have a: "str_strip ?X = ?X" by code_simp
  have b: "normalize json_loads ?X = JObject []" by code_simp
  have c: "normalize json_loads ?X = spec_normalize json_loads ?X"
    using t a by blast
  have d: "spec_normalize json_loads ?X = JObject []"
    using c b by (rule trans [OF sym])
  show ?thesis by (intro conjI sp k a b d)
qed

section \<open>What the normalizer returns on a failed parse\<close>




section \<open>Listing invoices\<close>

lemma insort_key_greatest:
  "\<forall>y\<in>set ys. f y < f x \<Longrightarrow> insort_key f x ys = ys @ [x]"
  by (induction ys) auto

lemma sort_key_desc_of_ascending:
  "sorted_wrt (<) (map created_at hs) \<Longrightarrow> sort_key (\<lambda>h. - created_at h) hs = rev hs"
proof (induction hs)
  case Nil
  then show ?case by simp
next
  case (Cons h hs)
  then have lt: "\<forall>y\<in>set hs. created_at h < created_at y" and s: "sorted_wrt (<) (map created_at hs)"
    by auto
  have "sort_key (\<lambda>h. - created_at h) (h # hs)
          = insort_key (\<lambda>h. - created_at h) h (sort_key (\<lambda>h. - created_at h) hs)"
    by simp
  also have "\<dots> = insort_key (\<lambda>h. - created_at h) h (rev hs)"
    using Cons.IH [OF s] by simp
  also have "\<dots> = rev hs @ [h]"
    by (rule insort_key_greatest) (use lt in auto)
  finally show ?case by simp
qed

text \<open>
  Claim C6. \<open>get_all_invoices\<close> returns all header rows (the same rows, each as
  often as the table holds it), ordered by \<open>created_at\<close> descending; rows with the same
  \<open>created_at\<close> keep their insertion order; and when the rows were created at strictly
  increasing times, the result is the table reversed (T3, T2, T1).
\<close>

theorem get_all_invoices_order:
  "mset (get_all_invoices db) = mset (invoice_header db)
   \<and> sorted_wrt (\<lambda>a b. created_at a \<ge> created_at b) (get_all_invoices db)
   \<and> filter (\<lambda>h. created_at h = t) (get_all_invoices db)
       = filter (\<lambda>h. created_at h = t) (invoice_header db)
   \<and> (sorted_wrt (<) (map created_at (invoice_header db))
        \<longrightarrow> get_all_invoices db = rev (invoice_header db))"
proof (intro conjI impI)
  show "mset (get_all_invoices db) = mset (invoice_header db)"
    by (simp add: get_all_invoices_def)
  have "sorted (map (\<lambda>h. - created_at h) (get_all_invoices db))"
    unfolding get_all_invoices_def by (rule sorted_sort_key)
  then show "sorted_wrt (\<lambda>a b. created_at a \<ge> created_at b) (get_all_invoices db)"
    by (simp add: sorted_map)
  have "filter (\<lambda>h. - created_at h = - t) (get_all_invoices db)
          = filter (\<lambda>h. - created_at h = - t) (invoice_header db)"
    unfolding get_all_invoices_def by (rule sort_key_stable)
  then show "filter (\<lambda>h. created_at h = t) (get_all_invoices db)
       = filter (\<lambda>h. created_at h = t) (invoice_header db)"
    by simp
  assume "sorted_wrt (<) (map created_at (invoice_header db))"
  then show "get_all_invoices db = rev (invoice_header db)"
    unfolding get_all_invoices_def by (rule sort_key_desc_of_ascending)
qed

theorem get_all_invoices_order_witness:
  "sorted_wrt (<) (map created_at [example_header 1 10, example_header 2 20, example_header 3 30])
   \<and> get_all_invoices
        \<lparr>invoice_header = [example_header 1 10, example_header 2 20, example_header 3 30],
         invoice_line_items = []\<rparr>
       = [example_header 3 30, example_header 2 20, example_header 1 10]"
proof -
  let ?db = "\<lparr>invoice_header = [example_header 1 10, example_header 2 20, example_header 3 30],
         invoice_line_items = []\<rparr>"
  have a: "sorted_wrt (<) (map created_at (invoice_header ?db))"
    by (simp add: example_header_def)
  from get_all_invoices_order [of ?db 0] a
  have "get_all_invoices ?db = rev (invoice_header ?db)" by blast
  then show ?thesis using a by simp
qed

section \<open>Image intake\<close>






section \<open>Reading one invoice, and the image paths column\<close>

text \<open>
  For every database: an id that no header has gives \<^verbatim>\<open>None\<close>; an id that a header
  has gives that header, detached, with its line items not loaded.
\<close>

lemma get_invoice_detail_not_found:
  "invoice_id \<notin> set (map id_header (invoice_header db))
     \<Longrightarrow> get_invoice_detail db invoice_id = None"
  by (auto simp: get_invoice_detail_def query_first_def find_None_iff split: option.splits)

lemma get_invoice_detail_found:
  assumes "get_invoice_detail db invoice_id = Some e"
  shows "columns e \<in> set (invoice_header db)" and "id_header (columns e) = invoice_id"
    and "line_items e = None" and "\<not> attached e"
    and "read_line_items db e = Inl DetachedInstanceError"
proof -
  from assms obtain h where f: "find (\<lambda>h. id_header h = invoice_id) (invoice_header db) = Some h"
    and e: "e = \<lparr>columns = h, line_items = None, attached = False\<rparr>"
    by (auto simp: get_invoice_detail_def query_first_def detach_def split: option.splits)
  from f have "h \<in> set (invoice_header db)" "id_header h = invoice_id"
    by (auto simp: find_Some_iff)
  with e show "columns e \<in> set (invoice_header db)" and "id_header (columns e) = invoice_id"
    by simp_all
  from e show "line_items e = None" and "\<not> attached e"
    and "read_line_items db e = Inl DetachedInstanceError"
    by (simp_all add: read_line_items_def)
qed

lemma save_builds_example_db:
  "save_invoice_to_db no_fault 10
     (JObject [(''supplier'', JString ''Acme''),
               (''line_items'', JArray [JObject [(''description'', JString ''Widget''),
                                                 (''quantity'', JInt 2)]])])
     [''uploaded_images/a.png''] empty_db
   = (Some 1, example_db)"
  by code_simp

text \<open>
  Claim C7 on a database holding invoice 1 with one line item: the function returns the
  header detached from its session with \<^verbatim>\<open>line_items\<close> never loaded, so reading
  \<^verbatim>\<open>invoice.line_items\<close>, as line 272 does, raises. An id that is not in the table
  gives \<^verbatim>\<open>None\<close>.
\<close>

theorem get_invoice_detail_detached:
  "get_invoice_detail example_db 1
     = Some \<lparr>columns = example_header 1 10, line_items = None, attached = False\<rparr>
   \<and> read_line_items example_db
        \<lparr>columns = example_header 1 10, line_items = None, attached = False\<rparr>
       = Inl DetachedInstanceError
   \<and> get_invoice_detail example_db 2 = None"
  by code_simp

text \<open>
  Claim C9 on an uploaded file named \<^verbatim>\<open>a,b.png\<close>: its locator contains the comma, the
  stored column is that locator, and the detail page splits it into two paths, neither
  of which is the locator.
\<close>

theorem comma_in_file_name_breaks_image_paths:
  "fst (save_uploaded_images no_fault \<lparr>dirs = {}, files = Map.empty\<rparr>
          [\<lparr>name = ''a,b.png'', getbuffer = ''x''\<rparr>])
     = Inr [''uploaded_images/a,b.png'']
   \<and> map image_paths (invoice_header (snd (save_invoice_to_db no_fault 10
          (JObject [(''supplier'', JString ''Acme'')]) [''uploaded_images/a,b.png''] empty_db)))
       = [''uploaded_images/a,b.png'']
   \<and> map detail_page_paths (invoice_header (snd (save_invoice_to_db no_fault 10
          (JObject [(''supplier'', JString ''Acme'')]) [''uploaded_images/a,b.png''] empty_db)))
       = [[''uploaded_images/a'', ''b.png'']]"
  by code_simp

section \<open>Creating an invoice: the transaction\<close>




lemma new_lines_header_id:
  "new_lines hid items = Inr ls \<Longrightarrow> map header_id ls = replicate (length items) hid"
proof (induction items arbitrary: ls)
  case Nil
  then show ?case by simp
next
  case (Cons item items)
  then show ?case
    by (auto simp: new_line_def split: sum.splits)
qed









lemma insert_lines_append:
  "\<exists>new. insert_lines ls t = t @ new \<and> map header_id new = map header_id ls"
proof (induction ls arbitrary: t)
  case Nil
  then show ?case by simp
next
  case (Cons l ls)
  from Cons.IH [of "t @ [line_row (next_id (map id_line t)) l]"]
  obtain new where n: "insert_lines ls (t @ [line_row (next_id (map id_line t)) l])
                         = (t @ [line_row (next_id (map id_line t)) l]) @ new"
    "map header_id new = map header_id ls" by blast
  have "insert_lines (l # ls) t = t @ (line_row (next_id (map id_line t)) l # new)"
    using n(1) by simp
  moreover have "map header_id (line_row (next_id (map id_line t)) l # new) = map header_id (l # ls)"
    using n(2) by (simp add: line_row_def)
  ultimately show ?case by blast
qed

lemma committed_rows:
  assumes "new_lines hid items = Inr ls"
  shows "\<exists>lines. committed now hid h ls db
             = \<lparr>invoice_header = invoice_header db @ [header_row hid now h],
                invoice_line_items = invoice_line_items db @ lines\<rparr>
           \<and> map header_id lines = replicate (length items) hid"
proof -
  from insert_lines_append [of ls "invoice_line_items db"] obtain new where
    "insert_lines ls (invoice_line_items db) = invoice_line_items db @ new"
    "map header_id new = map header_id ls" by blast
  then show ?thesis
    using new_lines_header_id [OF assms] by (auto simp: committed_def)
qed

text \<open>
  Claim C1 on the example invoice (one line item, so COMMIT is statement 2 and the read
  of \<^verbatim>\<open>header.id\<close> statement 3), saved into the empty database. With nothing refused
  the header and its line item are stored and the id 1 is returned. A refused COMMIT
  gives \<^verbatim>\<open>None\<close> and the empty database: rolled back. A refusal of the read after the
  commit gives \<^verbatim>\<open>None\<close> as well, but the database holds the header and the line
  item: the call reports a failure and has stored the invoice.
\<close>

theorem save_invoice_to_db_refused_after_commit:
  "save_invoice_to_db (\<lambda>k. False) 10 example_invoice [''uploaded_images/a.png''] empty_db
     = (Some 1, example_db)
   \<and> save_invoice_to_db (\<lambda>k. k = 2) 10 example_invoice [''uploaded_images/a.png''] empty_db
       = (None, empty_db)
   \<and> save_invoice_to_db (\<lambda>k. k = 3) 10 example_invoice [''uploaded_images/a.png''] empty_db
       = (None, example_db)"
  by code_simp

section \<open>What the store reads from the extracted object\<close>









end
